theory Spec2Isabelle
  imports Main "HOL-Library.Word"
begin

unbundle bit_operations_syntax

section \<open>Data representation on the AVR target\<close>

text \<open>
  \<^verbatim>\<open>main.c\<close> includes \<^verbatim>\<open>avr/io.h\<close>: the target is an 8-bit AVR, where
  \<^verbatim>\<open>char\<close> and \<^verbatim>\<open>uint8_t\<close> are one byte and \<^verbatim>\<open>int\<close> is a 16-bit two's
  complement integer stored least significant byte first.
\<close>

type_synonym byte = "8 word"
type_synonym c_int = "16 word"

text \<open>The object representation of an \<^verbatim>\<open>int\<close> variable: the bytes at \<^verbatim>\<open>&x\<close>, lowest address first.\<close>

definition int_bytes :: "c_int \<Rightarrow> byte list" where
  "int_bytes w = [ucast w, ucast (drop_bit 8 w)]"

text \<open>
  Reading an \<^verbatim>\<open>int\<close> variable back from its bytes. Only two-byte objects occur
  in the program; the shorter cases read the missing bytes as zero.
\<close>

fun bytes_int :: "byte list \<Rightarrow> c_int" where
  "bytes_int (lo # hi # _) = ucast lo OR push_bit 8 (ucast hi)"
| "bytes_int [lo] = ucast lo"
| "bytes_int [] = 0"

text \<open>Reading a \<^verbatim>\<open>char\<close> variable back from its one byte.\<close>

fun bytes_char :: "byte list \<Rightarrow> byte" where
  "bytes_char (b # _) = b"
| "bytes_char [] = 0"

text \<open>
  Integer promotion of a \<^verbatim>\<open>char\<close>. Whether plain \<^verbatim>\<open>char\<close> is signed is a compiler
  option (\<^verbatim>\<open>-funsigned-char\<close>), so the model takes it as the parameter \<open>schar\<close>.
\<close>

definition char_to_int :: "bool \<Rightarrow> byte \<Rightarrow> c_int" where
  "char_to_int schar c = (if schar then scast c else ucast c)"

section \<open>The bounded queues\<close>

text \<open>
  Modelled from the spec: the FreeRTOS queue primitives \<^verbatim>\<open>xQueueCreate\<close>,
  \<^verbatim>\<open>xQueueSend\<close> and \<^verbatim>\<open>xQueueReceive\<close> (\<^verbatim>\<open>queue.h\<close>) are not among the sources.
  A queue is a bounded FIFO of fixed capacity \<open>uxLength\<close> whose elements are
  \<open>uxItemSize\<close> bytes each; an element is copied in from, and out to, the bytes at
  the pointer the caller passes. With a zero wait a full queue drops the new element
  and an empty queue delivers nothing; both calls return at once. The spec describes
  the zero-wait policy only; with a positive wait the caller is suspended instead,
  which the model records as \<open>None\<close>.
\<close>

record queue =
  uxLength :: nat
  uxItemSize :: nat
  items :: "byte list list"

datatype BaseType_t = pdTRUE | pdFALSE

definition xQueueCreate :: "nat \<Rightarrow> nat \<Rightarrow> queue" where
  "xQueueCreate len sz = \<lparr>uxLength = len, uxItemSize = sz, items = []\<rparr>"

definition xQueueSend :: "queue \<Rightarrow> byte list \<Rightarrow> nat \<Rightarrow> (queue \<times> BaseType_t) option" where
  "xQueueSend q pvItemToQueue xTicksToWait =
     (if length (items q) < uxLength q
      then Some (q\<lparr>items := items q @ [take (uxItemSize q) pvItemToQueue]\<rparr>, pdTRUE)
      else if xTicksToWait = 0 then Some (q, pdFALSE)
      else None)"

definition xQueueReceive ::
  "queue \<Rightarrow> byte list \<Rightarrow> nat \<Rightarrow> (queue \<times> byte list \<times> BaseType_t) option" where
  "xQueueReceive q pvBuffer xTicksToWait =
     (case items q of
        it # rest \<Rightarrow> Some (q\<lparr>items := rest\<rparr>, it @ drop (uxItemSize q) pvBuffer, pdTRUE)
      | [] \<Rightarrow> if xTicksToWait = 0 then Some (q, pvBuffer, pdFALSE) else None)"

text \<open>
  A producer that enqueues the given elements one after the other with zero wait, and a
  consumer that then performs \<open>n\<close> zero-wait dequeues, each into a fresh buffer of the
  element size, collecting what it received.
\<close>

fun send_all :: "queue \<Rightarrow> byte list list \<Rightarrow> queue option" where
  "send_all q [] = Some q"
| "send_all q (x # xs) =
     (case xQueueSend q x 0 of None \<Rightarrow> None | Some (q', _) \<Rightarrow> send_all q' xs)"

fun receive_n :: "queue \<Rightarrow> nat \<Rightarrow> byte list list" where
  "receive_n q 0 = []"
| "receive_n q (Suc n) =
     (case xQueueReceive q (replicate (uxItemSize q) 0) 0 of
        None \<Rightarrow> []
      | Some (q', buf, r) \<Rightarrow> if r = pdTRUE then buf # receive_n q' n else [])"

section \<open>Hardware registers and the system state\<close>

text \<open>
  Bit masks of the device header \<^verbatim>\<open>avr/io.h\<close> (ATmega4809), which is not among the
  sources.
\<close>

definition PIN0_bm :: byte where "PIN0_bm = 0x01"
definition PIN1_bm :: byte where "PIN1_bm = 0x02"
definition PIN5_bm :: byte where "PIN5_bm = 0x20"
definition USART_TXEN_bm :: byte where "USART_TXEN_bm = 0x40"
definition USART_RXEN_bm :: byte where "USART_RXEN_bm = 0x80"

text \<open>What can go wrong in one step of a task.\<close>

datatype fault =
  NullQueueHandle   \<comment> \<open>a queue call on a handle that is still \<^verbatim>\<open>NULL\<close>\<close>
| TaskSuspended     \<comment> \<open>a queue call that suspends the caller instead of returning\<close>
| IndexOutOfBounds  \<comment> \<open>an array read outside the array\<close>

datatype task_fn = readerTask | driverTask | senderTask

record tcb =
  pxTaskCode :: task_fn
  pcName :: string
  usStackDepth :: nat
  uxPriority :: nat

datatype event = UsartInit | QueueCreate | TaskCreate task_fn | SchedulerStart

text \<open>
  The state the program works on: the port and USART registers it writes, the bytes
  handed to the transmitter so far, the two global queue handles (\<open>None\<close> is
  \<^verbatim>\<open>NULL\<close>, the value of an uninitialised global), the locals \<^verbatim>\<open>recInt\<close> and
  \<^verbatim>\<open>recChar\<close> that driverTask and senderTask declare outside their loops, the
  tasks handed to the kernel, and \<open>history\<close>, the kernel and transport calls made so
  far in the order they were made.
\<close>

record system =
  PORTA_DIR :: byte
  PORTC_DIR :: byte
  PORTC_OUT :: byte
  PORTF_DIR :: byte
  PORTF_OUT :: byte
  USART0_BAUD :: "16 word"
  USART0_CTRLB :: byte
  USART0_TX :: string
  intQueueForDriver :: "queue option"
  charQueueForError :: "queue option"
  recInt :: c_int
  recChar :: byte
  tasks :: "tcb list"
  scheduler_started :: bool
  history :: "event list"

text \<open>
  The state at reset: registers cleared, both handles \<^verbatim>\<open>NULL\<close>, no task. The two
  locals are never initialised by the program, so what they hold before the first
  dequeue is left to the two parameters.
\<close>

definition reset_state :: "c_int \<Rightarrow> byte \<Rightarrow> system" where
  "reset_state stale_int stale_char =
     \<lparr>PORTA_DIR = 0, PORTC_DIR = 0, PORTC_OUT = 0, PORTF_DIR = 0, PORTF_OUT = 0,
      USART0_BAUD = 0, USART0_CTRLB = 0, USART0_TX = [],
      intQueueForDriver = None, charQueueForError = None,
      recInt = stale_int, recChar = stale_char,
      tasks = [], scheduler_started = False, history = []\<rparr>"

section \<open>The transport\<close>

text \<open>
  \<^verbatim>\<open>USART0_BAUD_RATE(BAUD_RATE)\<close> is \<^verbatim>\<open>F_CPU*64/(16*BAUD_RATE) + 0.5\<close> in floating
  point, truncated by the cast to \<^verbatim>\<open>uint16_t\<close>: the quotient rounded to the nearest
  integer, written here with integer division.
\<close>

definition F_CPU :: nat where "F_CPU = 3333333"

definition USART0_BAUD_RATE :: "nat \<Rightarrow> 16 word" where
  "USART0_BAUD_RATE baud = of_nat ((2 * (F_CPU * 64) + 16 * baud) div (2 * (16 * baud)))"

definition USART0_init :: "system \<Rightarrow> system" where
  "USART0_init st =
     (let s1 = st\<lparr>PORTA_DIR := PORTA_DIR st OR PIN0_bm\<rparr>;
          s2 = s1\<lparr>PORTA_DIR := PORTA_DIR s1 AND NOT PIN1_bm\<rparr>;
          s3 = s2\<lparr>USART0_BAUD := USART0_BAUD_RATE 9600\<rparr>;
          s4 = s3\<lparr>USART0_CTRLB := USART0_CTRLB s3 OR USART_TXEN_bm\<rparr>;
          s5 = s4\<lparr>USART0_CTRLB := USART0_CTRLB s4 OR USART_RXEN_bm\<rparr>
      in s5\<lparr>history := history s5 @ [UsartInit]\<rparr>)"

text \<open>
  \<^verbatim>\<open>USART0_sendChar\<close> waits for the data register to be empty and writes the
  character to it; the transmitter is taken to become ready, so the call returns with
  the character sent. \<^verbatim>\<open>USART0_sendString\<close> sends the characters before the
  terminating NUL in order.
\<close>

definition USART0_sendChar :: "char \<Rightarrow> system \<Rightarrow> system" where
  "USART0_sendChar c st = st\<lparr>USART0_TX := USART0_TX st @ [c]\<rparr>"

fun USART0_sendString :: "string \<Rightarrow> system \<Rightarrow> system" where
  "USART0_sendString [] st = st"
| "USART0_sendString (c # str) st = USART0_sendString str (USART0_sendChar c st)"

section \<open>The three tasks\<close>

text \<open>
  readerTask: before its loop it creates both queues, five elements of one byte each.
  One pass of the loop, for the byte \<open>rx\<close> that \<^verbatim>\<open>USART0_readChar\<close> returns: the
  byte is stored in the \<^verbatim>\<open>char userInput\<close>, \<^verbatim>\<open>userInput - '0'\<close> is computed as an
  \<^verbatim>\<open>int\<close>, and the address of each variable is passed to a zero-wait
  \<^verbatim>\<open>xQueueSend\<close>, whose result is ignored.
\<close>

definition readerTask_setup :: "system \<Rightarrow> system" where
  "readerTask_setup st =
     st\<lparr>intQueueForDriver := Some (xQueueCreate 5 1),
        charQueueForError := Some (xQueueCreate 5 1),
        history := history st @ [QueueCreate, QueueCreate]\<rparr>"

definition readerTask_loop :: "bool \<Rightarrow> byte \<Rightarrow> system \<Rightarrow> fault + system" where
  "readerTask_loop schar rx st =
     (let userInput = rx;
          userInputToInt = char_to_int schar userInput - 48
      in case intQueueForDriver st of
           None \<Rightarrow> Inl NullQueueHandle
         | Some qi \<Rightarrow>
             (case xQueueSend qi (int_bytes userInputToInt) 0 of
                None \<Rightarrow> Inl TaskSuspended
              | Some (qi', _) \<Rightarrow>
                  (case charQueueForError st of
                     None \<Rightarrow> Inl NullQueueHandle
                   | Some qc \<Rightarrow>
                       (case xQueueSend qc [userInput] 0 of
                          None \<Rightarrow> Inl TaskSuspended
                        | Some (qc', _) \<Rightarrow>
                            Inr (st\<lparr>intQueueForDriver := Some qi',
                                    charQueueForError := Some qc'\<rparr>)))))"

text \<open>
  driverTask: the display encoding table \<^verbatim>\<open>number\<close>, digits 0 to 9 and the glyph E.
  Reading a C array outside its bounds is undefined; the model reports it as a fault.
\<close>

definition number :: "byte list" where
  "number = [0x3F, 0x06, 0x5B, 0x4F, 0x66, 0x6D, 0x7D, 0x07, 0x7F, 0x6F, 0x79]"

definition array_read :: "byte list \<Rightarrow> int \<Rightarrow> fault + byte" where
  "array_read arr i =
     (if 0 \<le> i \<and> i < int (length arr) then Inr (arr ! nat i) else Inl IndexOutOfBounds)"

definition PORTC_OUTCLR :: "byte \<Rightarrow> system \<Rightarrow> system" where
  "PORTC_OUTCLR m st = st\<lparr>PORTC_OUT := PORTC_OUT st AND NOT m\<rparr>"

definition PORTC_OUTSET :: "byte \<Rightarrow> system \<Rightarrow> system" where
  "PORTC_OUTSET m st = st\<lparr>PORTC_OUT := PORTC_OUT st OR m\<rparr>"

definition driverTask_setup :: "system \<Rightarrow> system" where
  "driverTask_setup st =
     (let s1 = st\<lparr>PORTF_DIR := PORTF_DIR st OR PIN5_bm\<rparr>;
          s2 = s1\<lparr>PORTF_OUT := PORTF_OUT s1 OR PIN5_bm\<rparr>
      in s2\<lparr>PORTC_DIR := PORTC_DIR s2 OR 0xFF\<rparr>)"

text \<open>
  The body of the \<^verbatim>\<open>if\<close> that follows a successful dequeue, for the value \<^verbatim>\<open>recInt\<close>
  then holds: clear all segment lines, then set the lines of the selected table entry.
\<close>

definition driverTask_display :: "system \<Rightarrow> fault + system" where
  "driverTask_display st =
     (if recInt st = 0 \<or> recInt st = 1 \<or> recInt st = 2 \<or> recInt st = 3 \<or>
         recInt st = 4 \<or> recInt st = 5 \<or> recInt st = 6 \<or> recInt st = 7 \<or>
         recInt st = 8 \<or> recInt st = 9
      then (case array_read number (sint (recInt st)) of
              Inl e \<Rightarrow> Inl e
            | Inr pat \<Rightarrow> Inr (PORTC_OUTSET pat (PORTC_OUTCLR 0xFF st)))
      else (case array_read number 10 of
              Inl e \<Rightarrow> Inl e
            | Inr pat \<Rightarrow> Inr (PORTC_OUTSET pat (PORTC_OUTCLR 0xFF st))))"

text \<open>
  One pass of driverTask's loop: a zero-wait dequeue into the bytes of \<^verbatim>\<open>recInt\<close>,
  and the display update when it delivered an element.
\<close>

definition driverTask_loop :: "system \<Rightarrow> fault + system" where
  "driverTask_loop st =
     (case intQueueForDriver st of
        None \<Rightarrow> Inl NullQueueHandle
      | Some q \<Rightarrow>
          (case xQueueReceive q (int_bytes (recInt st)) 0 of
             None \<Rightarrow> Inl TaskSuspended
           | Some (q', buf, r) \<Rightarrow>
               (let s1 = st\<lparr>intQueueForDriver := Some q', recInt := bytes_int buf\<rparr>
                in if r = pdTRUE then driverTask_display s1 else Inr s1)))"

text \<open>
  The index with which a pass of driverTask's loop reads the table \<^verbatim>\<open>number\<close> when
  \<^verbatim>\<open>recInt\<close> holds \<open>v\<close>: \<^verbatim>\<open>number[recInt]\<close> in the first branch, \<^verbatim>\<open>number[10]\<close>
  in the second.
\<close>

definition driver_index :: "c_int \<Rightarrow> int" where
  "driver_index v =
     (if v = 0 \<or> v = 1 \<or> v = 2 \<or> v = 3 \<or> v = 4 \<or> v = 5 \<or> v = 6 \<or> v = 7 \<or>
         v = 8 \<or> v = 9
      then sint v else 10)"

text \<open>
  One pass of senderTask's loop: a zero-wait dequeue into \<^verbatim>\<open>recChar\<close>, and one of
  the two messages when it delivered an element.
\<close>

definition senderTask_loop :: "bool \<Rightarrow> system \<Rightarrow> fault + system" where
  "senderTask_loop schar st =
     (case charQueueForError st of
        None \<Rightarrow> Inl NullQueueHandle
      | Some q \<Rightarrow>
          (case xQueueReceive q [recChar st] 0 of
             None \<Rightarrow> Inl TaskSuspended
           | Some (q', buf, r) \<Rightarrow>
               (let s1 = st\<lparr>charQueueForError := Some q', recChar := bytes_char buf\<rparr>;
                    c = char_to_int schar (recChar s1)
                in if r = pdTRUE
                   then (if c = 48 \<or> c = 49 \<or> c = 50 \<or> c = 51 \<or> c = 52 \<or>
                            c = 53 \<or> c = 54 \<or> c = 55 \<or> c = 56 \<or> c = 57
                         then Inr (USART0_sendString ''Valid digit was entered.'' s1)
                         else Inr (USART0_sendString ''Error! Not a valid digit.'' s1))
                   else Inr s1)))"

section \<open>The bootstrap\<close>

text \<open>
  Modelled from the spec: the FreeRTOS kernel calls \<^verbatim>\<open>xTaskCreate\<close> and
  \<^verbatim>\<open>vTaskStartScheduler\<close> (\<^verbatim>\<open>task.h\<close>) are not among the sources. Creating a task
  hands its entry function, name, stack depth and priority to the kernel; starting the
  scheduler hands control to it for good. \<^verbatim>\<open>main\<close> ignores what \<^verbatim>\<open>xTaskCreate\<close>
  returns. The constant \<^verbatim>\<open>configMINIMAL_STACK_SIZE\<close> of \<^verbatim>\<open>FreeRTOSConfig.h\<close> is a
  parameter of \<open>main\<close>.
\<close>

definition tskIDLE_PRIORITY :: nat where "tskIDLE_PRIORITY = 0"

definition xTaskCreate :: "task_fn \<Rightarrow> string \<Rightarrow> nat \<Rightarrow> nat \<Rightarrow> system \<Rightarrow> system" where
  "xTaskCreate code name depth prio st =
     st\<lparr>tasks := tasks st @
           [\<lparr>pxTaskCode = code, pcName = name, usStackDepth = depth, uxPriority = prio\<rparr>],
        history := history st @ [TaskCreate code]\<rparr>"

definition vTaskStartScheduler :: "system \<Rightarrow> system" where
  "vTaskStartScheduler st =
     st\<lparr>scheduler_started := True, history := history st @ [SchedulerStart]\<rparr>"

definition main :: "nat \<Rightarrow> system \<Rightarrow> system" where
  "main configMINIMAL_STACK_SIZE st =
     (let s1 = USART0_init st;
          s2 = xTaskCreate readerTask ''reader'' configMINIMAL_STACK_SIZE tskIDLE_PRIORITY s1;
          s3 = xTaskCreate driverTask ''driver'' configMINIMAL_STACK_SIZE tskIDLE_PRIORITY s2;
          s4 = xTaskCreate senderTask ''sender'' configMINIMAL_STACK_SIZE tskIDLE_PRIORITY s3
      in vTaskStartScheduler s4)"

section \<open>One keystroke through the pipeline\<close>

text \<open>
  The byte \<open>rx\<close> arrives and each task runs one pass of its loop: the reader, then the
  driver, then the sender.
\<close>

definition keystroke :: "bool \<Rightarrow> byte \<Rightarrow> system \<Rightarrow> fault + system" where
  "keystroke schar rx st =
     (case readerTask_loop schar rx st of
        Inl e \<Rightarrow> Inl e
      | Inr s1 \<Rightarrow>
          (case driverTask_loop s1 of
             Inl e \<Rightarrow> Inl e
           | Inr s2 \<Rightarrow> senderTask_loop schar s2))"

text \<open>The ASCII digits \<^verbatim>\<open>'0'\<close> to \<^verbatim>\<open>'9'\<close>.\<close>

definition is_ascii_digit :: "byte \<Rightarrow> bool" where
  "is_ascii_digit c = (48 \<le> c \<and> c \<le> 57)"

section \<open>Properties of the queues\<close>

lemma send_all_fits:
  "length (items q) + length xs \<le> uxLength q \<Longrightarrow>
   send_all q xs = Some (q\<lparr>items := items q @ map (take (uxItemSize q)) xs\<rparr>)"
proof (induction xs arbitrary: q)
  case Nil
  then show ?case by simp
next
  case (Cons x xs)
  let ?q' = "q\<lparr>items := items q @ [take (uxItemSize q) x]\<rparr>"
  from Cons.prems have "xQueueSend q x 0 = Some (?q', pdTRUE)"
    by (simp add: xQueueSend_def)
  moreover from Cons.prems have "length (items ?q') + length xs \<le> uxLength ?q'"
    by simp
  ultimately show ?case
    using Cons.IH [of ?q'] by simp
qed

lemma receive_n_items:
  "n \<le> length (items q) \<Longrightarrow> \<forall>it \<in> set (items q). length it = uxItemSize q \<Longrightarrow>
   receive_n q n = take n (items q)"
proof (induction n arbitrary: q)
  case 0
  then show ?case by simp
next
  case (Suc n)
  then obtain it rest where its: "items q = it # rest"
    by (cases "items q") auto
  let ?q' = "q\<lparr>items := rest\<rparr>"
  from Suc.prems its have len: "length it = uxItemSize q"
    by simp
  have "xQueueReceive q (replicate (uxItemSize q) 0) 0 = Some (?q', it, pdTRUE)"
    by (simp add: xQueueReceive_def its len)
  moreover from Suc.prems its have "receive_n ?q' n = take n (items ?q')"
    by (intro Suc.IH) auto
  ultimately show ?case
    by (simp add: its)
qed

text \<open>
  C4: an enqueue attempt with zero wait on a full queue of capacity 5 (five elements
  pending) returns to the caller at once, reports failure, and leaves the queue, and so
  its contents, exactly as it was: the new element is dropped.
\<close>

theorem full_queue_send_drops:
  "uxLength q = 5 \<Longrightarrow> length (items q) = 5 \<Longrightarrow> xQueueSend q x 0 = Some (q, pdFALSE)"
  by (simp add: xQueueSend_def)

theorem full_queue_send_drops_witness:
  "xQueueSend \<lparr>uxLength = 5, uxItemSize = 1, items = [[1], [2], [3], [4], [5]]\<rparr> [6] 0
     = Some (\<lparr>uxLength = 5, uxItemSize = 1, items = [[1], [2], [3], [4], [5]]\<rparr>, pdFALSE)"
  using full_queue_send_drops
    [of "\<lparr>uxLength = 5, uxItemSize = 1, items = [[1], [2], [3], [4], [5]]\<rparr>" "[6]"]
  by simp

text \<open>
  C5: at most five one-byte elements enqueued onto a freshly created queue of capacity 5,
  with no dequeue in between, are all accepted, and the same number of dequeues then
  returns them in exactly the order they were enqueued.
\<close>

theorem queue_fifo:
  "length bs \<le> 5 \<Longrightarrow>
   send_all (xQueueCreate 5 1) (map (\<lambda>b. [b]) bs)
     = Some ((xQueueCreate 5 1)\<lparr>items := map (\<lambda>b. [b]) bs\<rparr>) \<and>
   receive_n ((xQueueCreate 5 1)\<lparr>items := map (\<lambda>b. [b]) bs\<rparr>) (length bs)
     = map (\<lambda>b. [b]) bs"
proof -
  assume len: "length bs \<le> 5"
  define q where "q = xQueueCreate 5 1"
  define q' where "q' = q\<lparr>items := map (\<lambda>b. [b]) bs\<rparr>"
  have q: "items q = []" "uxLength q = 5" "uxItemSize q = 1"
    by (simp_all add: q_def xQueueCreate_def)
  have "map (take (uxItemSize q)) (map (\<lambda>b. [b]) bs) = map (\<lambda>b. [b]) bs"
    by (simp add: q comp_def)
  moreover from len have "length (items q) + length (map (\<lambda>b. [b]) bs) \<le> uxLength q"
    by (simp add: q)
  ultimately have sent: "send_all q (map (\<lambda>b. [b]) bs) = Some q'"
    using send_all_fits [of q "map (\<lambda>b. [b]) bs"] by (simp add: q q'_def)
  have "length bs \<le> length (items q')"
    and "\<forall>it \<in> set (items q'). length it = uxItemSize q'"
    by (auto simp: q'_def q)
  then have "receive_n q' (length bs) = take (length bs) (items q')"
    by (rule receive_n_items)
  then have "receive_n q' (length bs) = map (\<lambda>b. [b]) bs"
    by (simp add: q'_def)
  with sent show ?thesis
    by (simp add: q_def q'_def)
qed

theorem queue_fifo_witness:
  "length [1, 2, 3, 4, 5 :: byte] \<le> 5 \<and>
   send_all (xQueueCreate 5 1) [[1], [2], [3], [4], [5]]
     = Some ((xQueueCreate 5 1)\<lparr>items := [[1], [2], [3], [4], [5]]\<rparr>) \<and>
   receive_n ((xQueueCreate 5 1)\<lparr>items := [[1], [2], [3], [4], [5]]\<rparr>)
       (length [1, 2, 3, 4, 5 :: byte])
     = [[1], [2], [3], [4], [5]]"
  using queue_fifo [of "[1, 2, 3, 4, 5]"]
  by (simp del: send_all.simps receive_n.simps)

section \<open>Bytes and integers\<close>

lemma take_bit_8_minus_48:
  "take_bit 8 (a - 48) = take_bit 8 (b - 48)" if "take_bit 8 a = take_bit 8 b" for a b :: int
proof -
  have "take_bit 8 (a - 48) = take_bit 8 (take_bit 8 a - take_bit 8 48)"
    by (simp only: take_bit_diff)
  also have "\<dots> = take_bit 8 (take_bit 8 b - take_bit 8 48)"
    by (simp only: that)
  also have "\<dots> = take_bit 8 (b - 48)"
    by (simp only: take_bit_diff)
  finally show ?thesis .
qed

lemma low_byte_scast: "(ucast ((scast (c::byte) :: c_int) - 48) :: byte) = c - 48"
  apply transfer
  apply (simp only: take_bit_take_bit)
  apply simp
  apply (rule take_bit_8_minus_48)
  apply (simp add: take_bit_signed_take_bit)
  done

lemma low_byte_ucast: "(ucast ((ucast (c::byte) :: c_int) - 48) :: byte) = c - 48"
  apply transfer
  apply (simp only: take_bit_take_bit)
  apply simp
  apply (rule take_bit_8_minus_48)
  apply simp
  done

lemma low_byte_sent: "ucast (char_to_int schar c - 48) = (c - 48 :: byte)"
  by (simp add: char_to_int_def low_byte_scast low_byte_ucast)

lemma ucast_char_to_int: "ucast (char_to_int schar c) = c"
  unfolding char_to_int_def
  by (rule bit_word_eqI) (auto simp: bit_simps dest: bit_imp_le_length)

lemma bytes_int_low: "ucast (bytes_int [b, h]) = b"
  by (rule bit_word_eqI) (auto simp: bit_simps dest: bit_imp_le_length)

lemma bytes_int_high: "ucast (drop_bit 8 (bytes_int [b, h])) = h"
  by (rule bit_word_eqI) (auto simp: bit_simps dest: bit_imp_le_length)

lemma bytes_int_compose: "bytes_int [ucast v, ucast (drop_bit 8 v)] = v"
  by (rule bit_word_eqI) (auto simp: bit_simps dest: bit_imp_le_length)

lemma bytes_int_eq_iff:
  "bytes_int [b, h] = v \<longleftrightarrow> b = ucast v \<and> h = ucast (drop_bit 8 v)"
  using bytes_int_low [of b h] bytes_int_high [of b h] bytes_int_compose [of v]
  by auto

lemma bytes_int_int_bytes: "bytes_int (int_bytes w) = w"
  unfolding int_bytes_def by (rule bytes_int_compose)

lemma upper_byte_kept:
  "drop_bit 8 (bytes_int [b, ucast (drop_bit 8 w)]) = drop_bit 8 (w :: c_int)"
  by (rule bit_word_eqI) (auto simp: bit_simps dest: bit_imp_le_length)

lemma char_to_int_eq_iff:
  "char_to_int schar (ucast k) = k \<Longrightarrow> char_to_int schar c = k \<longleftrightarrow> c = ucast k"
  using ucast_char_to_int [of schar c] by auto

lemma char_to_int_digits:
  "char_to_int schar 48 = 48" "char_to_int schar 49 = 49" "char_to_int schar 50 = 50"
  "char_to_int schar 51 = 51" "char_to_int schar 52 = 52" "char_to_int schar 53 = 53"
  "char_to_int schar 54 = 54" "char_to_int schar 55 = 55" "char_to_int schar 56 = 56"
  "char_to_int schar 57 = 57"
  by (simp_all add: char_to_int_def)

lemma is_ascii_digit_cases:
  "is_ascii_digit c \<longleftrightarrow>
     c = 48 \<or> c = 49 \<or> c = 50 \<or> c = 51 \<or> c = 52 \<or> c = 53 \<or> c = 54 \<or> c = 55 \<or>
     c = 56 \<or> c = 57"
  unfolding is_ascii_digit_def
  by (simp add: word_le_nat_alt word_unat_eq_iff) arith

lemma sender_test_iff:
  "(char_to_int schar c = 48 \<or> char_to_int schar c = 49 \<or> char_to_int schar c = 50 \<or>
    char_to_int schar c = 51 \<or> char_to_int schar c = 52 \<or> char_to_int schar c = 53 \<or>
    char_to_int schar c = 54 \<or> char_to_int schar c = 55 \<or> char_to_int schar c = 56 \<or>
    char_to_int schar c = 57) \<longleftrightarrow> is_ascii_digit c"
  using char_to_int_eq_iff [of schar 48 c] char_to_int_eq_iff [of schar 49 c]
    char_to_int_eq_iff [of schar 50 c] char_to_int_eq_iff [of schar 51 c]
    char_to_int_eq_iff [of schar 52 c] char_to_int_eq_iff [of schar 53 c]
    char_to_int_eq_iff [of schar 54 c] char_to_int_eq_iff [of schar 55 c]
    char_to_int_eq_iff [of schar 56 c] char_to_int_eq_iff [of schar 57 c]
  by (simp add: char_to_int_digits is_ascii_digit_cases)

section \<open>The steps of the tasks\<close>

lemma sendString_appends:
  "USART0_sendString str st = st\<lparr>USART0_TX := USART0_TX st @ str\<rparr>"
  by (induction str arbitrary: st) (simp_all add: USART0_sendChar_def)

lemma byte_not_ff: "NOT (0xFF :: byte) = 0"
  by simp

lemma clear_then_set: "PORTC_OUTSET pat (PORTC_OUTCLR 0xFF st) = st\<lparr>PORTC_OUT := pat\<rparr>"
  unfolding PORTC_OUTSET_def PORTC_OUTCLR_def byte_not_ff
  by simp

lemma driver_index_range: "0 \<le> driver_index v \<and> driver_index v < 11"
  by (auto simp: driver_index_def)

lemma array_read_number:
  "array_read number (driver_index v) = Inr (number ! nat (driver_index v))"
  using driver_index_range [of v] by (simp add: array_read_def number_def)

lemma driverTask_display_index:
  "driverTask_display st =
     (case array_read number (driver_index (recInt st)) of
        Inl e \<Rightarrow> Inl e
      | Inr pat \<Rightarrow> Inr (PORTC_OUTSET pat (PORTC_OUTCLR 0xFF st)))"
  unfolding driverTask_display_def driver_index_def
  by (cases "recInt st = 0 \<or> recInt st = 1 \<or> recInt st = 2 \<or> recInt st = 3 \<or>
         recInt st = 4 \<or> recInt st = 5 \<or> recInt st = 6 \<or> recInt st = 7 \<or>
         recInt st = 8 \<or> recInt st = 9") (simp_all only: if_True if_False)

lemma driverTask_display_eq:
  "driverTask_display st = Inr (st\<lparr>PORTC_OUT := number ! nat (driver_index (recInt st))\<rparr>)"
  by (simp add: driverTask_display_index array_read_number clear_then_set)

lemma readerTask_loop_enqueues:
  assumes "intQueueForDriver st = Some qi" and "charQueueForError st = Some qc"
    and "length (items qi) < uxLength qi" and "length (items qc) < uxLength qc"
    and "uxItemSize qi = 1" and "uxItemSize qc = 1"
  shows "readerTask_loop schar c st =
     Inr (st\<lparr>intQueueForDriver := Some (qi\<lparr>items := items qi @ [[c - 48]]\<rparr>),
             charQueueForError := Some (qc\<lparr>items := items qc @ [[c]]\<rparr>)\<rparr>)"
  using assms
  by (simp add: readerTask_loop_def xQueueSend_def int_bytes_def low_byte_sent)

lemma driverTask_loop_dequeues:
  assumes "intQueueForDriver st = Some q" and "items q = [b] # rest" and "uxItemSize q = 1"
  shows "driverTask_loop st =
     driverTask_display
       (st\<lparr>intQueueForDriver := Some (q\<lparr>items := rest\<rparr>),
           recInt := bytes_int [b, ucast (drop_bit 8 (recInt st))]\<rparr>)"
  using assms
  by (simp add: driverTask_loop_def xQueueReceive_def int_bytes_def del: bytes_int.simps)

lemma senderTask_loop_dequeues:
  assumes "charQueueForError st = Some q" and "items q = [c] # rest" and "uxItemSize q = 1"
  shows "senderTask_loop schar st =
     Inr (USART0_sendString
            (if is_ascii_digit c then ''Valid digit was entered.''
             else ''Error! Not a valid digit.'')
            (st\<lparr>charQueueForError := Some (q\<lparr>items := rest\<rparr>), recChar := c\<rparr>))"
  using assms
  by (simp add: senderTask_loop_def xQueueReceive_def sender_test_iff Let_def
      del: USART0_sendString.simps)

section \<open>One keystroke on fresh queues\<close>

lemma driver_test_received:
  "(bytes_int [c - 48, h] = 0 \<or> bytes_int [c - 48, h] = 1 \<or> bytes_int [c - 48, h] = 2 \<or>
    bytes_int [c - 48, h] = 3 \<or> bytes_int [c - 48, h] = 4 \<or> bytes_int [c - 48, h] = 5 \<or>
    bytes_int [c - 48, h] = 6 \<or> bytes_int [c - 48, h] = 7 \<or> bytes_int [c - 48, h] = 8 \<or>
    bytes_int [c - 48, h] = 9) \<longleftrightarrow> h = 0 \<and> is_ascii_digit c"
  by (auto simp add: bytes_int_eq_iff is_ascii_digit_cases diff_eq_eq simp del: bytes_int.simps)

lemma driver_index_received:
  "driver_index (bytes_int [c - 48, h]) =
     (if h = 0 \<and> is_ascii_digit c then uint (c - 48) else 10)"
proof (cases "h = 0 \<and> is_ascii_digit c")
  case True
  then have "c = 48 \<or> c = 49 \<or> c = 50 \<or> c = 51 \<or> c = 52 \<or> c = 53 \<or> c = 54 \<or> c = 55 \<or>
     c = 56 \<or> c = 57"
    by (simp add: is_ascii_digit_cases)
  with True show ?thesis
    by (elim disjE) (simp_all add: driver_index_def)
next
  case False
  then show ?thesis
    by (simp only: driver_index_def driver_test_received if_False)
qed

lemma keystroke_after_setup:
  "\<exists>s'. keystroke schar c (readerTask_setup st) = Inr s' \<and>
        recInt s' = bytes_int [c - 48, ucast (drop_bit 8 (recInt st))] \<and>
        PORTC_OUT s' = number ! nat (driver_index (recInt s')) \<and>
        USART0_TX s' = USART0_TX st @
          (if is_ascii_digit c then ''Valid digit was entered.''
           else ''Error! Not a valid digit.'')"
proof -
  define q where "q = xQueueCreate 5 1"
  define s0 where "s0 = readerTask_setup st"
  define s1 where "s1 = s0\<lparr>intQueueForDriver := Some (q\<lparr>items := items q @ [[c - 48]]\<rparr>),
             charQueueForError := Some (q\<lparr>items := items q @ [[c]]\<rparr>)\<rparr>"
  define s2 where "s2 = s1\<lparr>intQueueForDriver := Some (q\<lparr>items := items q @ [[c - 48]]\<rparr>\<lparr>items := []\<rparr>),
           recInt := bytes_int [c - 48, ucast (drop_bit 8 (recInt s1))]\<rparr>"
  define s3 where "s3 = s2\<lparr>PORTC_OUT := number ! nat (driver_index (recInt s2))\<rparr>"
  define msg where "msg = (if is_ascii_digit c then ''Valid digit was entered.''
             else ''Error! Not a valid digit.'')"
  define s4 where "s4 = s3\<lparr>charQueueForError := Some (q\<lparr>items := items q @ [[c]]\<rparr>\<lparr>items := []\<rparr>), recChar := c\<rparr>"
  have q: "items q = []" "uxLength q = 5" "uxItemSize q = 1"
    by (simp_all add: q_def xQueueCreate_def)
  have s0: "intQueueForDriver s0 = Some q" "charQueueForError s0 = Some q"
    "recInt s0 = recInt st" "USART0_TX s0 = USART0_TX st"
    by (simp_all add: s0_def q_def readerTask_setup_def)
  have r: "readerTask_loop schar c s0 = Inr s1"
    unfolding s1_def by (rule readerTask_loop_enqueues) (simp_all add: s0 q)
  have "driverTask_loop s1 = driverTask_display s2"
    unfolding s2_def by (rule driverTask_loop_dequeues) (simp_all add: s1_def q)
  then have d: "driverTask_loop s1 = Inr s3"
    by (simp add: driverTask_display_eq s3_def)
  have "senderTask_loop schar s3 = Inr (USART0_sendString msg s4)"
    unfolding s4_def msg_def
    by (rule senderTask_loop_dequeues) (simp_all add: s3_def s2_def s1_def q)
  then have s: "senderTask_loop schar s3 = Inr (s4\<lparr>USART0_TX := USART0_TX s4 @ msg\<rparr>)"
    by (simp only: sendString_appends)
  have k: "keystroke schar c s0 = Inr (s4\<lparr>USART0_TX := USART0_TX s4 @ msg\<rparr>)"
    by (simp add: keystroke_def r d s)
  have "recInt s4 = bytes_int [c - 48, ucast (drop_bit 8 (recInt st))]"
    and "PORTC_OUT s4 = number ! nat (driver_index (recInt s4))"
    and "USART0_TX s4 = USART0_TX st"
    by (simp_all add: s4_def s3_def s2_def s1_def s0 del: bytes_int.simps)
  with k show ?thesis
    by (simp add: s0_def msg_def del: bytes_int.simps)
qed

section \<open>The display driver and the feedback reporter\<close>

lemma driver_test_signed:
  "(v = 0 \<or> v = 1 \<or> v = 2 \<or> v = 3 \<or> v = 4 \<or> v = 5 \<or> v = 6 \<or> v = 7 \<or> v = 8 \<or> v = 9)
     \<longleftrightarrow> 0 \<le> sint v \<and> sint v \<le> 9" for v :: c_int
proof -
  have eq: "v = k \<longleftrightarrow> sint v = sint k" for k :: c_int
    by (auto intro: signed_word_eqI)
  show ?thesis
    by (simp add: eq [of 0] eq [of 1] eq [of 2] eq [of 3] eq [of 4] eq [of 5] eq [of 6]
        eq [of 7] eq [of 8] eq [of 9]) arith
qed

lemma uint_low_byte: "uint (ucast (w :: c_int) :: byte) = sint w mod 256"
proof -
  have "uint (ucast w :: byte) = take_bit 8 (sint w)"
    by transfer (simp add: take_bit_signed_take_bit)
  then show ?thesis
    by (simp add: take_bit_eq_mod)
qed

text \<open>
  C2: A byte that is not an ASCII digit arrives on a system whose queues readerTask has
  just created; each task then runs one pass of its loop. The driver reads the table at
  the fallback index 10 and the display shows that entry, and the sender transmits
  exactly the string "Error! Not a valid digit.", whatever the state was before and
  whether or not plain char is signed.
\<close>

theorem nondigit_fallback:
  "\<not> is_ascii_digit c \<Longrightarrow>
   \<exists>s'. keystroke schar c (readerTask_setup st) = Inr s' \<and>
        driver_index (recInt s') = 10 \<and>
        PORTC_OUT s' = number ! 10 \<and>
        USART0_TX s' = USART0_TX st @ ''Error! Not a valid digit.''"
proof -
  assume nd: "\<not> is_ascii_digit c"
  obtain s' where k: "keystroke schar c (readerTask_setup st) = Inr s'"
    and r: "recInt s' = bytes_int [c - 48, ucast (drop_bit 8 (recInt st))]"
    and p: "PORTC_OUT s' = number ! nat (driver_index (recInt s'))"
    and t: "USART0_TX s' = USART0_TX st @
          (if is_ascii_digit c then ''Valid digit was entered.''
           else ''Error! Not a valid digit.'')"
    using keystroke_after_setup [of schar c st] by blast
  from nd r have "driver_index (recInt s') = 10"
    by (simp only: driver_index_received) simp
  with k p t nd show ?thesis
    by simp
qed

theorem nondigit_fallback_witness:
  "\<not> is_ascii_digit 0x2F \<and>
   (\<exists>s'. keystroke True 0x2F (readerTask_setup (reset_state 0 0)) = Inr s' \<and>
         driver_index (recInt s') = 10 \<and>
         PORTC_OUT s' = 0x79 \<and>
         USART0_TX s' = ''Error! Not a valid digit.'')"
  using nondigit_fallback [of "0x2F" True "reset_state 0 0"]
  by (simp add: is_ascii_digit_def number_def reset_state_def)

text \<open>
  C9: the byte 'A' (0x41) arrives on a system whose queues readerTask has just created.
  After one pass of each task the display shows exactly 0b01111001, which is entry 10 of
  the table, and the bytes transmitted are "Error! Not a valid digit.".
\<close>

theorem letter_A_shows_E:
  "\<exists>s'. keystroke schar 0x41 (readerTask_setup st) = Inr s' \<and>
        PORTC_OUT s' = 0b01111001 \<and>
        number ! 10 = 0b01111001 \<and>
        USART0_TX s' = USART0_TX st @ ''Error! Not a valid digit.''"
proof -
  obtain s' where k: "keystroke schar 0x41 (readerTask_setup st) = Inr s'"
    and r: "recInt s' = bytes_int [0x41 - 48, ucast (drop_bit 8 (recInt st))]"
    and p: "PORTC_OUT s' = number ! nat (driver_index (recInt s'))"
    and t: "USART0_TX s' = USART0_TX st @
          (if is_ascii_digit 0x41 then ''Valid digit was entered.''
           else ''Error! Not a valid digit.'')"
    using keystroke_after_setup [of schar "0x41" st] by blast
  have nd: "\<not> is_ascii_digit 0x41"
    by (simp add: is_ascii_digit_def)
  with r have "driver_index (recInt s') = 10"
    by (simp only: driver_index_received) simp
  with k p t nd show ?thesis
    by (simp add: number_def)
qed

theorem letter_A_shows_E_witness:
  "\<exists>s'. keystroke False 0x41 (readerTask_setup (reset_state 0x0003 0x33)) = Inr s' \<and>
        PORTC_OUT s' = 0b01111001 \<and>
        USART0_TX s' = ''Error! Not a valid digit.''"
  using letter_A_shows_E [of False "reset_state 0x0003 0x33"]
  by (auto simp add: reset_state_def)

text \<open>
  C3: whatever value \<open>v\<close> the driver finds in \<^verbatim>\<open>recInt\<close> after a dequeue, the index
  with which it reads the table is \<open>v\<close> itself when \<open>0 \<le> v \<le> 9\<close> and the fallback
  index 10 otherwise; it lies within the 11 entries of the table, so the read never
  leaves the array.
\<close>

theorem driver_index_in_table:
  "driver_index v = (if 0 \<le> sint v \<and> sint v \<le> 9 then sint v else 10) \<and>
   0 \<le> driver_index v \<and> driver_index v < int (length number) \<and> length number = 11 \<and>
   array_read number (driver_index v) = Inr (number ! nat (driver_index v)) \<and>
   driverTask_display (st\<lparr>recInt := v\<rparr>) =
     (case array_read number (driver_index v) of
        Inl e \<Rightarrow> Inl e
      | Inr pat \<Rightarrow> Inr (PORTC_OUTSET pat (PORTC_OUTCLR 0xFF (st\<lparr>recInt := v\<rparr>))))"
proof (intro conjI)
  show "driver_index v = (if 0 \<le> sint v \<and> sint v \<le> 9 then sint v else 10)"
    by (simp only: driver_index_def driver_test_signed)
  show "length number = 11"
    by (simp add: number_def)
  then show "driver_index v < int (length number)"
    using driver_index_range [of v] by simp
  show "0 \<le> driver_index v"
    using driver_index_range [of v] by simp
  show "array_read number (driver_index v) = Inr (number ! nat (driver_index v))"
    by (rule array_read_number)
  show "driverTask_display (st\<lparr>recInt := v\<rparr>) =
     (case array_read number (driver_index v) of
        Inl e \<Rightarrow> Inl e
      | Inr pat \<Rightarrow> Inr (PORTC_OUTSET pat (PORTC_OUTCLR 0xFF (st\<lparr>recInt := v\<rparr>))))"
    using driverTask_display_index [of "st\<lparr>recInt := v\<rparr>"] by simp
qed

theorem driver_index_in_table_witness:
  "driver_index 0x0133 = 10 \<and> array_read number (driver_index 0x0133) = Inr 0x79"
proof -
  note t = driver_index_in_table [of "0x0133" "reset_state 0 0"]
  from t have i: "driver_index 0x0133 = 10"
    by simp
  from t have "array_read number (driver_index 0x0133) = Inr (number ! nat (driver_index 0x0133))"
    by blast
  with i show ?thesis
    by (simp add: number_def)
qed

text \<open>
  What the display shows for a digit depends on the upper byte that the driver's
  \<^verbatim>\<open>recInt\<close> held before the dequeue: the queue element is one byte, so only the
  lower byte of \<^verbatim>\<open>recInt\<close> is written.
\<close>

lemma digit_display:
  assumes "is_ascii_digit c"
  shows "\<exists>s'. keystroke schar c (readerTask_setup st) = Inr s' \<and>
        PORTC_OUT s' =
          (if drop_bit 8 (recInt st) = 0 then number ! nat (uint (c - 48)) else number ! 10) \<and>
        USART0_TX s' = USART0_TX st @ ''Valid digit was entered.''"
proof -
  obtain s' where k: "keystroke schar c (readerTask_setup st) = Inr s'"
    and r: "recInt s' = bytes_int [c - 48, ucast (drop_bit 8 (recInt st))]"
    and p: "PORTC_OUT s' = number ! nat (driver_index (recInt s'))"
    and t: "USART0_TX s' = USART0_TX st @
          (if is_ascii_digit c then ''Valid digit was entered.''
           else ''Error! Not a valid digit.'')"
    using keystroke_after_setup [of schar c st] by blast
  have low8: "(ucast (ucast (drop_bit 8 (recInt st)) :: byte) :: c_int) = drop_bit 8 (recInt st)"
    by (rule bit_word_eqI) (auto simp: bit_simps dest: bit_imp_le_length)
  have "(ucast (drop_bit 8 (recInt st)) :: byte) = 0 \<longleftrightarrow> drop_bit 8 (recInt st) = 0"
  proof
    assume "(ucast (drop_bit 8 (recInt st)) :: byte) = 0"
    with low8 show "drop_bit 8 (recInt st) = 0"
      by simp
  next
    assume "drop_bit 8 (recInt st) = 0"
    then show "(ucast (drop_bit 8 (recInt st)) :: byte) = 0"
      by simp
  qed
  with assms r have "driver_index (recInt s') =
      (if drop_bit 8 (recInt st) = 0 then uint (c - 48) else 10)"
    by (simp only: driver_index_received) simp
  with k p t assms show ?thesis
    by auto
qed

text \<open>
  C1: the digit '7' (0x37) arrives while the driver's never initialised \<^verbatim>\<open>recInt\<close>
  holds 0xA5A5. The one-byte dequeue leaves 0xA507 in \<^verbatim>\<open>recInt\<close>, the driver reads
  the table at the fallback index 10 and the display shows entry 10, not entry 7; the
  sender transmits "Valid digit was entered.".
\<close>

theorem digit_7_stale_upper_byte:
  "\<exists>s'. keystroke schar 0x37 (readerTask_setup (st\<lparr>recInt := 0xA5A5\<rparr>)) = Inr s' \<and>
        recInt s' = 0xA507 \<and>
        driver_index (recInt s') = 10 \<and>
        PORTC_OUT s' = number ! 10 \<and>
        PORTC_OUT s' \<noteq> number ! 7 \<and>
        USART0_TX s' = USART0_TX st @ ''Valid digit was entered.''"
proof -
  obtain s' where k: "keystroke schar 0x37 (readerTask_setup (st\<lparr>recInt := 0xA5A5\<rparr>)) = Inr s'"
    and r: "recInt s' = bytes_int [0x37 - 48, ucast (drop_bit 8 (recInt (st\<lparr>recInt := 0xA5A5\<rparr>)))]"
    and p: "PORTC_OUT s' = number ! nat (driver_index (recInt s'))"
    and t: "USART0_TX s' = USART0_TX (st\<lparr>recInt := 0xA5A5\<rparr>) @
          (if is_ascii_digit 0x37 then ''Valid digit was entered.''
           else ''Error! Not a valid digit.'')"
    using keystroke_after_setup [of schar "0x37" "st\<lparr>recInt := 0xA5A5\<rparr>"] by blast
  from r have v: "recInt s' = 0xA507"
    by simp
  then have "driver_index (recInt s') = 10"
    by (simp add: driver_index_def)
  with k v p t show ?thesis
    by (simp add: number_def is_ascii_digit_def)
qed

text \<open>
  C8: the byte '3' (0x33) arrives while the driver's never initialised \<^verbatim>\<open>recInt\<close>
  holds 0xA5A5. The display then shows 0b01111001, the glyph E, and not 0b01001111; the
  sender transmits "Valid digit was entered.".
\<close>

theorem digit_3_stale_upper_byte:
  "\<exists>s'. keystroke schar 0x33 (readerTask_setup (st\<lparr>recInt := 0xA5A5\<rparr>)) = Inr s' \<and>
        recInt s' = 0xA503 \<and>
        PORTC_OUT s' = 0b01111001 \<and>
        PORTC_OUT s' \<noteq> 0b01001111 \<and>
        USART0_TX s' = USART0_TX st @ ''Valid digit was entered.''"
proof -
  obtain s' where k: "keystroke schar 0x33 (readerTask_setup (st\<lparr>recInt := 0xA5A5\<rparr>)) = Inr s'"
    and r: "recInt s' = bytes_int [0x33 - 48, ucast (drop_bit 8 (recInt (st\<lparr>recInt := 0xA5A5\<rparr>)))]"
    and p: "PORTC_OUT s' = number ! nat (driver_index (recInt s'))"
    and t: "USART0_TX s' = USART0_TX (st\<lparr>recInt := 0xA5A5\<rparr>) @
          (if is_ascii_digit 0x33 then ''Valid digit was entered.''
           else ''Error! Not a valid digit.'')"
    using keystroke_after_setup [of schar "0x33" "st\<lparr>recInt := 0xA5A5\<rparr>"] by blast
  from r have v: "recInt s' = 0xA503"
    by simp
  then have "driver_index (recInt s') = 10"
    by (simp add: driver_index_def)
  with k v p t show ?thesis
    by (simp add: number_def is_ascii_digit_def)
qed

text \<open>
  C7: for every received byte, on a system whose queues readerTask has just created,
  the element the reader puts into the numeric queue is the single byte \<open>b\<close> that is
  the value of the \<^verbatim>\<open>int\<close> \<^verbatim>\<open>userInput - '0'\<close> modulo 256; the driver's dequeue
  writes \<open>b\<close> into the lower byte of \<^verbatim>\<open>recInt\<close> and leaves its upper byte as it was.
\<close>

theorem numeric_queue_carries_low_byte:
  "\<exists>s1 s2 b. readerTask_loop schar c (readerTask_setup st) = Inr s1 \<and>
        intQueueForDriver s1 = Some ((xQueueCreate 5 1)\<lparr>items := [[b]]\<rparr>) \<and>
        uint b = sint (char_to_int schar c - 48) mod 256 \<and>
        driverTask_loop s1 = Inr s2 \<and>
        ucast (recInt s2) = b \<and>
        drop_bit 8 (recInt s2) = drop_bit 8 (recInt st)"
proof -
  define q where "q = xQueueCreate 5 1"
  define s0 where "s0 = readerTask_setup st"
  define s1 where "s1 = s0\<lparr>intQueueForDriver := Some (q\<lparr>items := items q @ [[c - 48]]\<rparr>),
             charQueueForError := Some (q\<lparr>items := items q @ [[c]]\<rparr>)\<rparr>"
  define s2 where "s2 = s1\<lparr>intQueueForDriver := Some (q\<lparr>items := items q @ [[c - 48]]\<rparr>\<lparr>items := []\<rparr>),
           recInt := bytes_int [c - 48, ucast (drop_bit 8 (recInt s1))]\<rparr>"
  define s3 where "s3 = s2\<lparr>PORTC_OUT := number ! nat (driver_index (recInt s2))\<rparr>"
  have q: "items q = []" "uxLength q = 5" "uxItemSize q = 1"
    by (simp_all add: q_def xQueueCreate_def)
  have s0: "intQueueForDriver s0 = Some q" "charQueueForError s0 = Some q"
    "recInt s0 = recInt st"
    by (simp_all add: s0_def q_def readerTask_setup_def)
  have r: "readerTask_loop schar c s0 = Inr s1"
    unfolding s1_def by (rule readerTask_loop_enqueues) (simp_all add: s0 q)
  have "driverTask_loop s1 = driverTask_display s2"
    unfolding s2_def by (rule driverTask_loop_dequeues) (simp_all add: s1_def q)
  then have d: "driverTask_loop s1 = Inr s3"
    by (simp add: driverTask_display_eq s3_def)
  have i: "intQueueForDriver s1 = Some (q\<lparr>items := [[c - 48]]\<rparr>)"
    by (simp add: s1_def q)
  have "uint (ucast (char_to_int schar c - 48) :: byte) = sint (char_to_int schar c - 48) mod 256"
    by (rule uint_low_byte)
  then have u: "uint (c - 48) = sint (char_to_int schar c - 48) mod 256"
    by (simp only: low_byte_sent)
  have v: "recInt s3 = bytes_int [c - 48, ucast (drop_bit 8 (recInt st))]"
    by (simp add: s3_def s2_def s1_def s0 del: bytes_int.simps)
  have "ucast (recInt s3) = c - 48" "drop_bit 8 (recInt s3) = drop_bit 8 (recInt st)"
    by (simp_all only: v bytes_int_low upper_byte_kept)
  with r d i u show ?thesis
    unfolding s0_def q_def by blast
qed

theorem numeric_queue_carries_low_byte_witness:
  "\<exists>s1 s2 b. readerTask_loop True 0x2F (readerTask_setup (reset_state 0x1234 0)) = Inr s1 \<and>
        intQueueForDriver s1 = Some ((xQueueCreate 5 1)\<lparr>items := [[b]]\<rparr>) \<and>
        uint b = 255 \<and>
        driverTask_loop s1 = Inr s2 \<and>
        ucast (recInt s2) = b \<and>
        drop_bit 8 (recInt s2) = 0x12"
  using numeric_queue_carries_low_byte [of True "0x2F" "reset_state 0x1234 0"]
  by (simp add: reset_state_def char_to_int_def)

section \<open>The display update and the bootstrap\<close>

lemma driver_index_digit: "d \<le> 9 \<Longrightarrow> driver_index (of_nat d) = int d"
proof -
  assume "d \<le> 9"
  then have "d = 0 \<or> d = 1 \<or> d = 2 \<or> d = 3 \<or> d = 4 \<or> d = 5 \<or> d = 6 \<or> d = 7 \<or> d = 8 \<or> d = 9"
    by arith
  then show ?thesis
    by (elim disjE) (simp_all add: driver_index_def)
qed

text \<open>
  C10: for every digit \<open>d\<close>, the display update the driver performs for \<open>d\<close> (clear
  all segment lines, then set those of entry \<open>d\<close>) leaves a state on which performing
  it again changes nothing: after two updates the display shows the same pattern as
  after one, the table entry of \<open>d\<close>.
\<close>

theorem display_update_idempotent:
  "d \<le> 9 \<Longrightarrow>
   \<exists>s1. driverTask_display (st\<lparr>recInt := of_nat d\<rparr>) = Inr s1 \<and>
        driverTask_display s1 = Inr s1 \<and>
        PORTC_OUT s1 = number ! d \<and>
        PORTC_OUTSET (number ! d) (PORTC_OUTCLR 0xFF s1) = s1"
proof -
  assume d: "d \<le> 9"
  define s0 where "s0 = st\<lparr>recInt := of_nat d\<rparr>"
  define s1 where "s1 = s0\<lparr>PORTC_OUT := number ! d\<rparr>"
  from d have i: "driver_index (recInt s0) = int d" "driver_index (recInt s1) = int d"
    by (simp_all add: s0_def s1_def driver_index_digit)
  have "driverTask_display s0 = Inr s1"
    by (simp add: driverTask_display_eq i s1_def)
  moreover have "driverTask_display s1 = Inr s1"
    by (simp add: driverTask_display_eq i) (simp add: s1_def)
  moreover have "PORTC_OUT s1 = number ! d"
    by (simp add: s1_def)
  moreover have "PORTC_OUTSET (number ! d) (PORTC_OUTCLR 0xFF s1) = s1"
    by (simp add: clear_then_set) (simp add: s1_def)
  ultimately show ?thesis
    unfolding s0_def by blast
qed

theorem display_update_idempotent_witness:
  "(3 :: nat) \<le> 9 \<and>
   (\<exists>s1. driverTask_display ((reset_state 0 0)\<lparr>PORTC_OUT := 0x7F, recInt := 3\<rparr>) = Inr s1 \<and>
         driverTask_display s1 = Inr s1 \<and>
         PORTC_OUT s1 = 0b01001111)"
  using display_update_idempotent [of 3 "(reset_state 0 0)\<lparr>PORTC_OUT := 0x7F\<rparr>"]
  by (auto simp add: number_def)

text \<open>
  C6, as the code has it: \<^verbatim>\<open>main\<close> initialises the transport (baud register, transmitter
  and receiver enabled), then creates the three tasks reader, driver and sender, in this
  order and all at priority \<^verbatim>\<open>tskIDLE_PRIORITY\<close>, and finally starts the scheduler. It
  creates no queue and leaves both queue handles as they were. The two queues, five
  elements of one byte each, are created by readerTask before its loop.
\<close>

theorem main_boot_sequence:
  "history (main n st) = history st @
     [UsartInit, TaskCreate readerTask, TaskCreate driverTask, TaskCreate senderTask,
      SchedulerStart] \<and>
   tasks (main n st) = tasks st @
     [\<lparr>pxTaskCode = readerTask, pcName = ''reader'', usStackDepth = n,
        uxPriority = tskIDLE_PRIORITY\<rparr>,
      \<lparr>pxTaskCode = driverTask, pcName = ''driver'', usStackDepth = n,
        uxPriority = tskIDLE_PRIORITY\<rparr>,
      \<lparr>pxTaskCode = senderTask, pcName = ''sender'', usStackDepth = n,
        uxPriority = tskIDLE_PRIORITY\<rparr>] \<and>
   scheduler_started (main n st) \<and>
   USART0_BAUD (main n st) = 1389 \<and>
   USART0_CTRLB (main n st) = (USART0_CTRLB st OR USART_TXEN_bm) OR USART_RXEN_bm \<and>
   intQueueForDriver (main n st) = intQueueForDriver st \<and>
   charQueueForError (main n st) = charQueueForError st \<and>
   intQueueForDriver (readerTask_setup s) = Some (xQueueCreate 5 1) \<and>
   charQueueForError (readerTask_setup s) = Some (xQueueCreate 5 1) \<and>
   history (readerTask_setup s) = history s @ [QueueCreate, QueueCreate]"
  by (simp add: main_def USART0_init_def xTaskCreate_def vTaskStartScheduler_def
      readerTask_setup_def USART0_BAUD_RATE_def F_CPU_def Let_def)

text \<open>
  C6, as the claim has it, fails: started from reset, \<^verbatim>\<open>main\<close> reaches the scheduler
  with both queue handles still \<^verbatim>\<open>NULL\<close> and without having created a queue, and a
  first pass of driverTask at that point calls \<^verbatim>\<open>xQueueReceive\<close> on a \<^verbatim>\<open>NULL\<close> handle.
\<close>

theorem main_creates_no_queue:
  "\<not> (intQueueForDriver (main 128 (reset_state 0 0)) \<noteq> None \<and>
      charQueueForError (main 128 (reset_state 0 0)) \<noteq> None) \<and>
   QueueCreate \<notin> set (history (main 128 (reset_state 0 0))) \<and>
   scheduler_started (main 128 (reset_state 0 0)) \<and>
   driverTask_loop (driverTask_setup (main 128 (reset_state 0 0))) = Inl NullQueueHandle"
  by (simp add: main_def USART0_init_def xTaskCreate_def vTaskStartScheduler_def
      reset_state_def driverTask_setup_def driverTask_loop_def Let_def)

end
